theory Spec2Isabelle
  imports Main
begin

section \<open>The dialog template of singleware/ui-dialog\<close>

text \<open>
  The class \<^verbatim>\<open>Template\<close> of \<^verbatim>\<open>src/source/template.tsx\<close> builds a small
  shadow tree at construction and then only moves two of its nodes in and out of it.
  The model keeps the nodes the class names as constructors, the DOM as a store that
  gives every node its list of children, promises as a list of settlements indexed by
  the order of their creation, and every dispatched event in a log together with the
  state a synchronous listener reads at that moment.
\<close>

subsection \<open>Nodes and the DOM store\<close>

text \<open>
  One constructor for each element the class holds in a field (\<^verbatim>\<open>skeleton\<close>,
  \<^verbatim>\<open>elements\<close> the shadow root, \<^verbatim>\<open>styles\<close>, \<^verbatim>\<open>wrapper\<close>,
  \<^verbatim>\<open>modalSlot\<close>, \<^verbatim>\<open>dialog\<close> and its three slots), and \<open>Child i\<close> for
  the \<open>i\<close>-th node of \<^verbatim>\<open>this.children\<close>, the caller's content placed in the
  skeleton.
\<close>

datatype node =
  Skeleton | ShadowRoot | Styles | Wrapper | ModalSlot | Dialog
  | HeaderSlot | ContentSlot | FooterSlot | Child nat

type_synonym forest = "node \<Rightarrow> node list"

datatype error = NotFoundError | HierarchyRequestError

text \<open>
  \<^verbatim>\<open>node.remove()\<close>: the node leaves the child list of its parent; a node
  without a parent stays as it is. A node has at most one parent, so removing it from
  every child list is removing it from its parent's.
\<close>

definition remove_node :: "node \<Rightarrow> forest \<Rightarrow> forest" where
  "remove_node n k = (\<lambda>p. removeAll n (k p))"

text \<open>
  The DOM refuses an insertion that would close a cycle: the node to insert must not be
  the new parent or one of its ancestors, where a shadow root counts as lying below its
  host. The trees of the widget hold nine elements and the caller's children (leaves
  here), so a search nine levels deep sees every descendant.
\<close>

definition host_kids :: "forest \<Rightarrow> node \<Rightarrow> node list" where
  "host_kids k n = k n @ (if n = Skeleton then [ShadowRoot] else [])"

fun descendants :: "nat \<Rightarrow> forest \<Rightarrow> node \<Rightarrow> node list" where
  "descendants 0 k n = []"
| "descendants (Suc d) k n = k n @ concat (map (descendants d k) (k n))"

definition inclusive_ancestor :: "forest \<Rightarrow> node \<Rightarrow> node \<Rightarrow> bool" where
  "inclusive_ancestor k a n =
     (a = n \<or> n \<in> set (descendants (Suc (Suc (Suc (Suc (Suc (Suc (Suc (Suc (Suc 0)))))))))
                          (host_kids k) a))"

fun insert_before :: "node \<Rightarrow> node \<Rightarrow> node list \<Rightarrow> node list" where
  "insert_before n r [] = [n]"
| "insert_before n r (x # xs) = (if x = r then n # x # xs else x # insert_before n r xs)"

text \<open>
  \<^verbatim>\<open>parent.insertBefore(n, r)\<close>: \<^verbatim>\<open>HierarchyRequestError\<close> when \<open>n\<close> is an
  inclusive ancestor of the parent, \<^verbatim>\<open>NotFoundError\<close> when \<open>r\<close> is not a child
  of the parent; a node put before itself stays where it is; otherwise \<open>n\<close> is taken
  out of where it is and put in front of \<open>r\<close>: a node already in the tree moves, it
  is not copied.
\<close>

definition insertBefore :: "node \<Rightarrow> node \<Rightarrow> node \<Rightarrow> forest \<Rightarrow> error + forest" where
  "insertBefore p n r k =
     (if inclusive_ancestor k n p then Inl HierarchyRequestError
      else if r \<notin> set (k p) then Inl NotFoundError
      else if n = r then Inr k
      else let k' = remove_node n k in Inr (k'(p := insert_before n r (k' p))))"

text \<open>\<^verbatim>\<open>parent.appendChild(n)\<close>: the same check, then \<open>n\<close> becomes the last child.\<close>

definition appendChild :: "node \<Rightarrow> node \<Rightarrow> forest \<Rightarrow> error + forest" where
  "appendChild p n k =
     (if inclusive_ancestor k n p then Inl HierarchyRequestError
      else let k' = remove_node n k in Inr (k'(p := k' p @ [n])))"

text \<open>The render tree is what hangs under the shadow root.\<close>

inductive in_tree :: "forest \<Rightarrow> node \<Rightarrow> bool" for k :: forest where
  root: "in_tree k ShadowRoot"
| child: "in_tree k p \<Longrightarrow> n \<in> set (k p) \<Longrightarrow> in_tree k n"

fun immediately_before :: "node \<Rightarrow> node \<Rightarrow> node list \<Rightarrow> bool" where
  "immediately_before a b (x # y # zs) = ((x = a \<and> y = b) \<or> immediately_before a b (y # zs))"
| "immediately_before a b _ = False"

subsection \<open>Promises, events and the state of the class\<close>

text \<open>
  A promise is pending, fulfilled with a value or rejected with a reason. The two
  functions the \<^verbatim>\<open>Promise\<close> constructor hands to its executor are
  \<open>Resolve p\<close> and \<open>Reject p\<close> for the promise \<open>p\<close>; calling either on a
  promise that is settled already changes nothing.
\<close>

datatype settlement = Pending | Fulfilled bool | Rejected bool

datatype callable = Resolve nat | Reject nat

definition settle :: "nat \<Rightarrow> settlement \<Rightarrow> settlement list \<Rightarrow> settlement list" where
  "settle p v ps = (if p < length ps \<and> ps ! p = Pending then ps[p := v] else ps)"

fun call :: "callable \<Rightarrow> bool \<Rightarrow> settlement list \<Rightarrow> settlement list" where
  "call (Resolve p) v ps = settle p (Fulfilled v) ps"
| "call (Reject p) v ps = settle p (Rejected v) ps"

record Event =
  etype :: string
  bubbles :: bool
  cancelable :: bool

text \<open>
  Modelled from the spec: the interface \<^verbatim>\<open>Properties\<close> of
  \<^verbatim>\<open>./properties\<close> is not among the sources; the class reads its fields
  \<^verbatim>\<open>modal\<close> and \<^verbatim>\<open>canIgnore\<close> as conditions, and either may be absent.
  Its field \<^verbatim>\<open>class\<close> only names the style class of the skeleton and is left out.
\<close>

record Properties =
  modal :: "bool option"
  canIgnore :: "bool option"

text \<open>JavaScript's test of an optional boolean: absent and \<^verbatim>\<open>false\<close> both fail.\<close>

definition truthy :: "bool option \<Rightarrow> bool" where
  "truthy b = (b = Some True)"

text \<open>
  What a listener called during \<^verbatim>\<open>dispatchEvent\<close> gets and can read: the event,
  the node it was dispatched on, and the tree and the promises as they are at that
  moment. Listeners are observers here: one that calls back into the widget is a caller
  like any other, and its calls are further operations of a run.
\<close>

record observation =
  target :: node
  event :: Event
  seen_kids :: forest
  seen_promises :: "settlement list"

record Template =
  properties :: Properties
  confirmation :: "callable option"
  kids :: forest
  promises :: "settlement list"
  dispatched :: "observation list"

text \<open>
  The field initialisers and the constructor: the dialog holds its three slots, the
  skeleton the caller's \<open>n\<close> children, the shadow root the style sheet and the empty
  wrapper (\<^verbatim>\<open>DOM.append\<close>); the modal slot is created detached and
  \<^verbatim>\<open>confirmation\<close> is undefined.
\<close>

definition new_Template :: "Properties \<Rightarrow> nat \<Rightarrow> Template" where
  "new_Template props n =
     \<lparr>properties = props, confirmation = None,
      kids = (\<lambda>p. [])(Dialog := [HeaderSlot, ContentSlot, FooterSlot],
                        Skeleton := map Child [0..<n],
                        ShadowRoot := [Styles, Wrapper]),
      promises = [], dispatched = []\<rparr>"

definition dispatchEvent :: "node \<Rightarrow> Event \<Rightarrow> Template \<Rightarrow> Template" where
  "dispatchEvent tgt ev s =
     s\<lparr>dispatched := dispatched s @
          [\<lparr>target = tgt, event = ev, seen_kids = kids s, seen_promises = promises s\<rparr>]\<rparr>"

definition notification :: "string \<Rightarrow> Event" where
  "notification name = \<lparr>etype = name, bubbles = True, cancelable = False\<rparr>"

subsection \<open>The methods\<close>

definition show_dialog :: "bool option \<Rightarrow> Template \<Rightarrow> error + Template" where
  "show_dialog m s =
     (case (if truthy m \<or> truthy (modal (properties s))
            then insertBefore ShadowRoot ModalSlot Wrapper (kids s)
            else Inr (kids s)) of
        Inl e \<Rightarrow> Inl e
      | Inr k1 \<Rightarrow>
          (case appendChild Wrapper Dialog k1 of
             Inl e \<Rightarrow> Inl e
           | Inr k2 \<Rightarrow> Inr (dispatchEvent Skeleton (notification ''show'') (s\<lparr>kids := k2\<rparr>))))"

definition hide :: "Template \<Rightarrow> Template" where
  "hide s =
     dispatchEvent Skeleton (notification ''hide'')
       (s\<lparr>kids := remove_node Dialog (remove_node ModalSlot (kids s))\<rparr>)"

text \<open>
  \<^verbatim>\<open>success\<close> and \<^verbatim>\<open>failure\<close> are declared \<^verbatim>\<open>async\<close> but await
  nothing: the body runs to its end inside the call. The promise each hands back to its
  caller carries no value and is left out of the state.
\<close>

definition success :: "Template \<Rightarrow> Template" where
  "success s =
     (case confirmation s of
        None \<Rightarrow> s
      | Some c \<Rightarrow>
          dispatchEvent Skeleton (notification ''success'')
            (s\<lparr>promises := call c True (promises s)\<rparr>))"

definition failure :: "Template \<Rightarrow> Template" where
  "failure s =
     (case confirmation s of
        None \<Rightarrow> s
      | Some c \<Rightarrow>
          dispatchEvent Skeleton (notification ''failure'')
            (s\<lparr>promises := call c False (promises s)\<rparr>))"

text \<open>
  \<^verbatim>\<open>wait\<close> creates a promise, whose executor stores the resolving function in
  \<^verbatim>\<open>confirmation\<close> and drops the rejecting one, and returns it. (The promise of
  the \<^verbatim>\<open>async\<close> wrapper is resolved with this one and follows it; the model
  identifies the two.)
\<close>

definition wait :: "Template \<Rightarrow> nat \<times> Template" where
  "wait s =
     (let p = length (promises s)
      in (p, s\<lparr>promises := promises s @ [Pending], confirmation := Some (Resolve p)\<rparr>))"

text \<open>The click listener of the wrapper, called with the target of the event.\<close>

definition ignoreHandler :: "node \<Rightarrow> Template \<Rightarrow> Template" where
  "ignoreHandler event_target s =
     (if truthy (canIgnore (properties s)) \<and> event_target = Dialog then hide s else s)"

subsection \<open>Runs of the widget\<close>

datatype op = Show "bool option" | Hide | Wait | Success | Failure | Click node

fun step :: "op \<Rightarrow> Template \<Rightarrow> error + Template" where
  "step (Show m) s = show_dialog m s"
| "step Hide s = Inr (hide s)"
| "step Wait s = Inr (snd (wait s))"
| "step Success s = Inr (success s)"
| "step Failure s = Inr (failure s)"
| "step (Click t) s = Inr (ignoreHandler t s)"

text \<open>A run ends at the first exception, which goes to the caller.\<close>

fun run :: "op list \<Rightarrow> Template \<Rightarrow> error + Template" where
  "run [] s = Inr s"
| "run (x # xs) s = (case step x s of Inl e \<Rightarrow> Inl e | Inr s' \<Rightarrow> run xs s')"

text \<open>The shapes the tree of the widget takes.\<close>

definition tree_ok :: "forest \<Rightarrow> bool" where
  "tree_ok k \<longleftrightarrow>
     (k ShadowRoot = [Styles, Wrapper] \<or> k ShadowRoot = [Styles, ModalSlot, Wrapper]) \<and>
     (k Wrapper = [] \<or> k Wrapper = [Dialog]) \<and>
     k Dialog = [HeaderSlot, ContentSlot, FooterSlot] \<and>
     k Styles = [] \<and> k ModalSlot = [] \<and>
     k HeaderSlot = [] \<and> k ContentSlot = [] \<and> k FooterSlot = []"

text \<open>
  A pending promise whose resolving function is not the stored one: the stored function
  is only ever replaced by that of a newer promise.
\<close>

definition orphan :: "nat \<Rightarrow> Template \<Rightarrow> bool" where
  "orphan p s \<longleftrightarrow> p < length (promises s) \<and> promises s ! p = Pending
     \<and> (\<exists>q. confirmation s = Some (Resolve q) \<and> q \<noteq> p)"

text \<open>No rejecting function is stored and no promise is rejected.\<close>

definition resolving :: "Template \<Rightarrow> bool" where
  "resolving s \<longleftrightarrow> (\<forall>q. confirmation s \<noteq> Some (Reject q))
     \<and> (\<forall>r. Rejected r \<notin> set (promises s))"

section \<open>Properties of the DOM store\<close>

lemmas model_defs = show_dialog_def insertBefore_def appendChild_def inclusive_ancestor_def
  host_kids_def remove_node_def dispatchEvent_def new_Template_def truthy_def notification_def
  hide_def success_def failure_def wait_def ignoreHandler_def settle_def Let_def

lemma descendants_leaf: "k a = [] \<Longrightarrow> descendants d k a = []"
  by (cases d) simp_all

lemma not_ancestor_leaf:
  "k a = [] \<Longrightarrow> a \<noteq> Skeleton \<Longrightarrow> a \<noteq> n \<Longrightarrow> \<not> inclusive_ancestor k a n"
  by (simp add: inclusive_ancestor_def descendants_leaf host_kids_def)

lemma not_ancestor_dialog:
  assumes "k Dialog = [HeaderSlot, ContentSlot, FooterSlot]"
    and "k HeaderSlot = []" and "k ContentSlot = []" and "k FooterSlot = []"
  shows "\<not> inclusive_ancestor k Dialog Wrapper"
  using assms by (simp add: inclusive_ancestor_def descendants_leaf host_kids_def)

lemma descendants_dialog:
  assumes "tree_ok k"
  shows "set (descendants d k Dialog) \<subseteq> {HeaderSlot, ContentSlot, FooterSlot}"
proof (cases d)
  case 0
  then show ?thesis by simp
next
  case (Suc d')
  with assms show ?thesis
    by (simp add: tree_ok_def descendants_leaf)
qed

lemma tree_ok_new: "tree_ok (kids (new_Template props n))"
  by (simp add: tree_ok_def new_Template_def)

lemma in_tree_has_parent: "in_tree k n \<Longrightarrow> n = ShadowRoot \<or> (\<exists>p. n \<in> set (k p))"
  by (induction rule: in_tree.induct) auto

lemma in_tree_shadow_child: "n \<in> set (k ShadowRoot) \<Longrightarrow> in_tree k n"
  by (rule in_tree.child[OF in_tree.root])

lemma in_tree_nodes:
  assumes "tree_ok k" and "in_tree k n"
  shows "n \<in> {ShadowRoot, Styles, ModalSlot, Wrapper, Dialog, HeaderSlot, ContentSlot, FooterSlot}"
  using assms(2,1)
  by (induction rule: in_tree.induct) (auto simp: tree_ok_def)

lemma in_tree_modal_iff:
  assumes "tree_ok k"
  shows "in_tree k ModalSlot \<longleftrightarrow> k ShadowRoot = [Styles, ModalSlot, Wrapper]"
proof
  assume "in_tree k ModalSlot"
  then show "k ShadowRoot = [Styles, ModalSlot, Wrapper]"
  proof (cases rule: in_tree.cases)
    case (child p)
    with in_tree_nodes[OF assms child(1)] assms show ?thesis
      by (auto simp: tree_ok_def)
  qed
next
  assume "k ShadowRoot = [Styles, ModalSlot, Wrapper]"
  then show "in_tree k ModalSlot" by (simp add: in_tree_shadow_child)
qed

lemma in_tree_dialog:
  assumes "tree_ok k" and "k Wrapper = [Dialog]"
  shows "in_tree k Dialog"
proof -
  have "in_tree k Wrapper"
    using assms(1) by (auto simp: tree_ok_def intro: in_tree_shadow_child)
  then show ?thesis using assms(2) by (auto intro: in_tree.child)
qed

lemma remove_node_absent: "\<forall>p. n \<notin> set (k p) \<Longrightarrow> remove_node n k = k"
  by (auto simp: remove_node_def fun_eq_iff)

lemma insertBefore_modal:
  assumes "tree_ok k"
  shows "\<exists>k'. insertBefore ShadowRoot ModalSlot Wrapper k = Inr k' \<and> tree_ok k'
     \<and> k' ShadowRoot = [Styles, ModalSlot, Wrapper] \<and> k' Wrapper = k Wrapper"
  using assms
  by (auto simp: insertBefore_def tree_ok_def not_ancestor_leaf remove_node_def Let_def)

lemma appendChild_dialog:
  assumes "tree_ok k"
  shows "\<exists>k'. appendChild Wrapper Dialog k = Inr k' \<and> tree_ok k'
     \<and> k' ShadowRoot = k ShadowRoot \<and> k' Wrapper = [Dialog]"
  using assms
  by (auto simp: appendChild_def tree_ok_def not_ancestor_dialog remove_node_def Let_def)

section \<open>Showing and hiding\<close>

text \<open>
  On a well-shaped tree \<^verbatim>\<open>show\<close> raises nothing; it leaves the dialog as the only
  child of the wrapper and, when the modality holds, the modal slot right before the
  wrapper. When the modality fails it does not touch the children of the shadow root.
\<close>

lemma show_dialog_ok:
  assumes "tree_ok (kids s)"
  shows "\<exists>k'. show_dialog m s
        = Inr (dispatchEvent Skeleton (notification ''show'') (s\<lparr>kids := k'\<rparr>))
     \<and> tree_ok k' \<and> k' Wrapper = [Dialog]
     \<and> k' ShadowRoot = (if truthy m \<or> truthy (modal (properties s))
                        then [Styles, ModalSlot, Wrapper] else kids s ShadowRoot)"
proof (cases "truthy m \<or> truthy (modal (properties s))")
  case True
  from insertBefore_modal[OF assms] obtain k1 where
    k1: "insertBefore ShadowRoot ModalSlot Wrapper (kids s) = Inr k1" "tree_ok k1"
      "k1 ShadowRoot = [Styles, ModalSlot, Wrapper]" by blast
  from appendChild_dialog[OF k1(2)] obtain k2 where
    k2: "appendChild Wrapper Dialog k1 = Inr k2" "tree_ok k2"
      "k2 ShadowRoot = k1 ShadowRoot" "k2 Wrapper = [Dialog]" by blast
  show ?thesis using True k1 k2 by (auto simp add: show_dialog_def)
next
  case False
  from appendChild_dialog[OF assms] obtain k2 where
    k2: "appendChild Wrapper Dialog (kids s) = Inr k2" "tree_ok k2"
      "k2 ShadowRoot = kids s ShadowRoot" "k2 Wrapper = [Dialog]" by blast
  show ?thesis using False k2 by (auto simp add: show_dialog_def)
qed

lemma kids_hide: "kids (hide s) = remove_node Dialog (remove_node ModalSlot (kids s))"
  by (simp add: hide_def dispatchEvent_def)

lemma dispatched_hide:
  "dispatched (hide s) = dispatched s @
     [\<lparr>target = Skeleton, event = notification ''hide'',
       seen_kids = kids (hide s), seen_promises = promises (hide s)\<rparr>]"
  by (simp add: hide_def dispatchEvent_def)

lemma hide_frame:
  "confirmation (hide s) = confirmation s" "promises (hide s) = promises s"
  "properties (hide s) = properties s"
  by (simp_all add: hide_def dispatchEvent_def)

lemma hide_no_parent: "Dialog \<notin> set (kids (hide s) p)" "ModalSlot \<notin> set (kids (hide s) p)"
  by (simp_all add: kids_hide remove_node_def)

lemma hide_not_in_tree:
  "\<not> in_tree (kids (hide s)) Dialog" "\<not> in_tree (kids (hide s)) ModalSlot"
  using in_tree_has_parent[of "kids (hide s)" Dialog]
    in_tree_has_parent[of "kids (hide s)" ModalSlot]
  by (auto simp: hide_no_parent)

lemma kids_hide_hide: "kids (hide (hide s)) = kids (hide s)"
  by (simp add: kids_hide remove_node_def fun_eq_iff)

lemma hide_tree_ok: "tree_ok (kids s) \<Longrightarrow> tree_ok (kids (hide s))"
  by (auto simp: hide_def dispatchEvent_def remove_node_def tree_ok_def)

lemma hide_changes_state: "hide s \<noteq> s"
proof
  assume "hide s = s"
  then have "length (dispatched (hide s)) = length (dispatched s)" by simp
  then show False by (simp add: dispatched_hide)
qed

lemma hide_pow_frame:
  "confirmation ((hide ^^ n) s) = confirmation s \<and> promises ((hide ^^ n) s) = promises s"
  by (induction n) (simp_all add: hide_frame)

lemma kids_hide_filter:
  "kids (hide s) p = filter (\<lambda>n. n \<noteq> Dialog \<and> n \<noteq> ModalSlot) (kids s p)"
proof -
  have "removeAll Dialog (removeAll ModalSlot xs)
      = filter (\<lambda>n. n \<noteq> Dialog \<and> n \<noteq> ModalSlot) xs" for xs
    by (induction xs) auto
  then show ?thesis by (simp add: kids_hide remove_node_def)
qed

lemma hide_absent_noop:
  assumes "\<forall>p. Dialog \<notin> set (kids s p)" and "\<forall>p. ModalSlot \<notin> set (kids s p)"
  shows "kids (hide s) = kids s"
  using assms by (simp add: kids_hide remove_node_absent)

text \<open>
  C1, as the code has it. A call \<^verbatim>\<open>show(m)\<close> on the widget raises nothing and
  leaves the dialog body attached in the wrapper, whatever \<open>m\<close> is. When \<open>m\<close> or
  the configured \<^verbatim>\<open>modal\<close> is true, the backdrop slot is in the render tree
  afterwards, immediately before the wrapper. When neither is true the call does not
  touch the backdrop: it is in the render tree afterwards exactly when it was there
  before.
\<close>

theorem show_inserts_backdrop_when_modal:
  assumes "tree_ok (kids s)"
  shows "\<exists>s'. show_dialog m s = Inr s' \<and> tree_ok (kids s')
     \<and> kids s' Wrapper = [Dialog] \<and> in_tree (kids s') Dialog
     \<and> (if truthy m \<or> truthy (modal (properties s))
        then immediately_before ModalSlot Wrapper (kids s' ShadowRoot)
             \<and> in_tree (kids s') ModalSlot
        else kids s' ShadowRoot = kids s ShadowRoot
             \<and> in_tree (kids s') ModalSlot = in_tree (kids s) ModalSlot)"
proof -
  from show_dialog_ok[OF assms, of m] obtain k' where
    k': "show_dialog m s = Inr (dispatchEvent Skeleton (notification ''show'') (s\<lparr>kids := k'\<rparr>))"
      "tree_ok k'" "k' Wrapper = [Dialog]"
      "k' ShadowRoot = (if truthy m \<or> truthy (modal (properties s))
                        then [Styles, ModalSlot, Wrapper] else kids s ShadowRoot)"
    by blast
  let ?s' = "dispatchEvent Skeleton (notification ''show'') (s\<lparr>kids := k'\<rparr>)"
  have kd: "kids ?s' = k'" by (simp add: dispatchEvent_def)
  have "in_tree k' Dialog" using k'(2,3) by (rule in_tree_dialog)
  moreover have "truthy m \<or> truthy (modal (properties s)) \<Longrightarrow>
      immediately_before ModalSlot Wrapper (k' ShadowRoot) \<and> in_tree k' ModalSlot"
    using k'(4) by (simp add: in_tree_shadow_child)
  moreover have "\<not> (truthy m \<or> truthy (modal (properties s))) \<Longrightarrow>
      k' ShadowRoot = kids s ShadowRoot \<and> in_tree k' ModalSlot = in_tree (kids s) ModalSlot"
    using k'(4) in_tree_modal_iff[OF k'(2)] in_tree_modal_iff[OF assms] by simp
  ultimately show ?thesis using k'(1,2,3) kd by auto
qed

theorem show_inserts_backdrop_when_modal_witness:
  "tree_ok (kids (new_Template \<lparr>modal = None, canIgnore = None\<rparr> 0))
   \<and> (\<exists>s'. show_dialog (Some True) (new_Template \<lparr>modal = None, canIgnore = None\<rparr> 0) = Inr s'
         \<and> kids s' Wrapper = [Dialog] \<and> in_tree (kids s') Dialog
         \<and> immediately_before ModalSlot Wrapper (kids s' ShadowRoot)
         \<and> in_tree (kids s') ModalSlot)"
  using show_inserts_backdrop_when_modal
    [of "new_Template \<lparr>modal = None, canIgnore = None\<rparr> 0" "Some True"]
  by (auto simp add: tree_ok_new truthy_def)

text \<open>
  C1 as the claim words it fails: after \<^verbatim>\<open>show(true)\<close>, a call
  \<^verbatim>\<open>show(false)\<close> on a widget whose \<^verbatim>\<open>modal\<close> property is unset leaves the
  backdrop in the render tree, though neither the argument nor the property is true.
\<close>

theorem show_false_keeps_backdrop_counterexample:
  "(case run [Show (Some True), Show (Some False)]
           (new_Template \<lparr>modal = None, canIgnore = None\<rparr> 0) of
      Inl e \<Rightarrow> False
    | Inr s \<Rightarrow> ModalSlot \<in> set (kids s ShadowRoot) \<and> in_tree (kids s) ModalSlot
         \<and> \<not> (truthy (Some False) \<or> truthy (modal (properties s))))"
  by (simp add: model_defs in_tree_shadow_child)

text \<open>
  C2. In every state \<^verbatim>\<open>hide\<close> leaves neither the dialog body nor the backdrop
  slot under any parent, hence in the render tree, and every other node where it was:
  each list of children is the old one without these two nodes. On a node that has no
  parent the removal changes nothing, so \<^verbatim>\<open>hide\<close> on a widget where both are
  absent leaves the whole tree as it was. The properties, the stored settle-function and
  the promises are not touched. A second \<^verbatim>\<open>hide\<close> leaves the tree of the first,
  and each call adds exactly one \<^verbatim>\<open>hide\<close> notification to what was dispatched.
\<close>

theorem hide_removes_both_nodes_idempotent:
  "\<not> in_tree (kids (hide s)) Dialog \<and> \<not> in_tree (kids (hide s)) ModalSlot
   \<and> (\<forall>p. Dialog \<notin> set (kids (hide s) p) \<and> ModalSlot \<notin> set (kids (hide s) p))
   \<and> (\<forall>p. kids (hide s) p = filter (\<lambda>n. n \<noteq> Dialog \<and> n \<noteq> ModalSlot) (kids s p))
   \<and> ((\<forall>p. ModalSlot \<notin> set (kids s p)) \<longrightarrow> remove_node ModalSlot (kids s) = kids s)
   \<and> ((\<forall>p. Dialog \<notin> set (kids s p)) \<longrightarrow> remove_node Dialog (kids s) = kids s)
   \<and> ((\<forall>p. ModalSlot \<notin> set (kids s p)) \<longrightarrow> kids (hide s) = remove_node Dialog (kids s))
   \<and> ((\<forall>p. Dialog \<notin> set (kids s p)) \<longrightarrow> kids (hide s) = remove_node ModalSlot (kids s))
   \<and> ((\<forall>p. Dialog \<notin> set (kids s p)) \<and> (\<forall>p. ModalSlot \<notin> set (kids s p))
        \<longrightarrow> kids (hide s) = kids s)
   \<and> properties (hide s) = properties s \<and> confirmation (hide s) = confirmation s
   \<and> promises (hide s) = promises s
   \<and> kids (hide (hide s)) = kids (hide s)
   \<and> \<not> in_tree (kids (hide (hide s))) Dialog \<and> \<not> in_tree (kids (hide (hide s))) ModalSlot
   \<and> map (\<lambda>ob. (target ob, event ob)) (dispatched (hide s))
       = map (\<lambda>ob. (target ob, event ob)) (dispatched s) @ [(Skeleton, notification ''hide'')]
   \<and> map (\<lambda>ob. (target ob, event ob)) (dispatched (hide (hide s)))
       = map (\<lambda>ob. (target ob, event ob)) (dispatched s)
           @ [(Skeleton, notification ''hide''), (Skeleton, notification ''hide'')]"
proof -
  have a: "(\<forall>p. ModalSlot \<notin> set (kids s p)) \<longrightarrow> kids (hide s) = remove_node Dialog (kids s)"
    by (simp add: kids_hide remove_node_absent)
  have b: "(\<forall>p. Dialog \<notin> set (kids s p)) \<longrightarrow> kids (hide s) = remove_node ModalSlot (kids s)"
    by (simp add: kids_hide remove_node_absent remove_node_def fun_eq_iff)
  have c: "(\<forall>p. Dialog \<notin> set (kids s p)) \<and> (\<forall>p. ModalSlot \<notin> set (kids s p))
        \<longrightarrow> kids (hide s) = kids s"
    using hide_absent_noop[of s] by blast
  have d: "\<forall>p. kids (hide s) p = filter (\<lambda>n. n \<noteq> Dialog \<and> n \<noteq> ModalSlot) (kids s p)"
    by (simp add: kids_hide_filter)
  show ?thesis
    using a b c d
    by (simp add: hide_not_in_tree hide_no_parent remove_node_absent kids_hide_hide
        dispatched_hide hide_frame)
qed

theorem hide_removes_both_nodes_idempotent_witness:
  "(\<exists>s. show_dialog (Some True) (new_Template \<lparr>modal = None, canIgnore = None\<rparr> 2) = Inr s
       \<and> kids s ShadowRoot = [Styles, ModalSlot, Wrapper] \<and> kids s Wrapper = [Dialog]
       \<and> in_tree (kids s) Dialog \<and> in_tree (kids s) ModalSlot
       \<and> kids (hide s) ShadowRoot = [Styles, Wrapper] \<and> kids (hide s) Wrapper = []
       \<and> kids (hide s) Dialog = [HeaderSlot, ContentSlot, FooterSlot]
       \<and> kids (hide s) Skeleton = [Child 0, Child 1]
       \<and> \<not> in_tree (kids (hide s)) Dialog \<and> \<not> in_tree (kids (hide s)) ModalSlot
       \<and> kids (hide (hide s)) = kids (hide s)
       \<and> map (\<lambda>ob. etype (event ob)) (dispatched (hide (hide s))) = [''show'', ''hide'', ''hide''])
   \<and> (\<forall>p. ModalSlot \<notin> set (kids (new_Template \<lparr>modal = None, canIgnore = None\<rparr> 2) p))
   \<and> (\<forall>p. Dialog \<notin> set (kids (new_Template \<lparr>modal = None, canIgnore = None\<rparr> 2) p))
   \<and> kids (hide (new_Template \<lparr>modal = None, canIgnore = None\<rparr> 2))
       = kids (new_Template \<lparr>modal = None, canIgnore = None\<rparr> 2)"
proof -
  let ?s0 = "new_Template \<lparr>modal = None, canIgnore = None\<rparr> 2"
  have s: "show_dialog (Some True) ?s0 = Inr s \<Longrightarrow>
      kids s ShadowRoot = [Styles, ModalSlot, Wrapper] \<and> kids s Wrapper = [Dialog]
      \<and> kids s Dialog = [HeaderSlot, ContentSlot, FooterSlot]
      \<and> kids s Skeleton = [Child 0, Child 1]
      \<and> map (\<lambda>ob. etype (event ob)) (dispatched s) = [''show'']" for s
    by (simp add: model_defs) (auto simp: upt_rec)
  from show_dialog_ok[OF tree_ok_new, of "Some True" "\<lparr>modal = None, canIgnore = None\<rparr>" 2]
  obtain s where sh: "show_dialog (Some True) ?s0 = Inr s" "tree_ok (kids s)"
    by (auto simp: dispatchEvent_def)
  note k = s[OF sh(1)]
  have t: "in_tree (kids s) Dialog" "in_tree (kids s) ModalSlot"
    using k sh(2) by (simp_all add: in_tree_dialog in_tree_shadow_child)
  note h = hide_removes_both_nodes_idempotent[of s]
  have e: "map (\<lambda>ob. etype (event ob)) (dispatched (hide (hide s))) = [''show'', ''hide'', ''hide'']"
    using k by (simp add: dispatched_hide notification_def)
  have "kids (hide s) ShadowRoot = [Styles, Wrapper]" "kids (hide s) Wrapper = []"
    "kids (hide s) Dialog = [HeaderSlot, ContentSlot, FooterSlot]"
    "kids (hide s) Skeleton = [Child 0, Child 1]"
    using h k by simp_all
  with sh(1) k t e h have first: "\<exists>s. show_dialog (Some True) ?s0 = Inr s
       \<and> kids s ShadowRoot = [Styles, ModalSlot, Wrapper] \<and> kids s Wrapper = [Dialog]
       \<and> in_tree (kids s) Dialog \<and> in_tree (kids s) ModalSlot
       \<and> kids (hide s) ShadowRoot = [Styles, Wrapper] \<and> kids (hide s) Wrapper = []
       \<and> kids (hide s) Dialog = [HeaderSlot, ContentSlot, FooterSlot]
       \<and> kids (hide s) Skeleton = [Child 0, Child 1]
       \<and> \<not> in_tree (kids (hide s)) Dialog \<and> \<not> in_tree (kids (hide s)) ModalSlot
       \<and> kids (hide (hide s)) = kids (hide s)
       \<and> map (\<lambda>ob. etype (event ob)) (dispatched (hide (hide s))) = [''show'', ''hide'', ''hide'']"
    by (intro exI[of _ s]) simp
  have ab: "\<forall>p. ModalSlot \<notin> set (kids ?s0 p)" "\<forall>p. Dialog \<notin> set (kids ?s0 p)"
    by (auto simp: new_Template_def)
  with hide_removes_both_nodes_idempotent[of ?s0]
  have "kids (hide ?s0) = kids ?s0" by blast
  with first ab show ?thesis by (intro conjI)
qed

text \<open>
  C7. Any number of \<^verbatim>\<open>hide\<close> calls leaves the stored settle-function and every
  promise as they were; a promise that was pending is still pending.
\<close>

theorem hide_never_settles:
  "confirmation ((hide ^^ n) s) = confirmation s \<and> promises ((hide ^^ n) s) = promises s
   \<and> (p < length (promises s) \<and> promises s ! p = Pending \<longrightarrow>
        p < length (promises ((hide ^^ n) s)) \<and> promises ((hide ^^ n) s) ! p = Pending)"
  by (simp add: hide_pow_frame)

theorem hide_never_settles_witness:
  "0 < length (promises (snd (wait (new_Template \<lparr>modal = None, canIgnore = None\<rparr> 0))))
   \<and> promises (snd (wait (new_Template \<lparr>modal = None, canIgnore = None\<rparr> 0))) ! 0 = Pending
   \<and> promises ((hide ^^ 3) (snd (wait (new_Template \<lparr>modal = None, canIgnore = None\<rparr> 0)))) ! 0
       = Pending
   \<and> confirmation ((hide ^^ 3) (snd (wait (new_Template \<lparr>modal = None, canIgnore = None\<rparr> 0))))
       = Some (Resolve 0)"
  using hide_never_settles
    [of 3 "snd (wait (new_Template \<lparr>modal = None, canIgnore = None\<rparr> 0))" 0]
  by (simp add: wait_def new_Template_def Let_def)

section \<open>Dismissal by a click\<close>

text \<open>
  C6. The click listener of the wrapper calls \<^verbatim>\<open>hide\<close> exactly when
  \<^verbatim>\<open>canIgnore\<close> is true and the target of the event is the dialog body itself
  (\<^verbatim>\<open>hide\<close> always changes the state, so the two outcomes differ). When
  \<^verbatim>\<open>canIgnore\<close> is not true, or the target is a descendant of the dialog body,
  the state is left as it is.
\<close>

theorem ignoreHandler_hides_iff:
  "(ignoreHandler t s = hide s) = (truthy (canIgnore (properties s)) \<and> t = Dialog)
   \<and> (\<not> (truthy (canIgnore (properties s)) \<and> t = Dialog) \<longrightarrow> ignoreHandler t s = s)
   \<and> (\<not> truthy (canIgnore (properties s)) \<longrightarrow> ignoreHandler t s = s)
   \<and> (tree_ok (kids s) \<and> t \<in> set (descendants d (kids s) Dialog) \<longrightarrow> ignoreHandler t s = s)"
proof -
  have "tree_ok (kids s) \<Longrightarrow> t \<in> set (descendants d (kids s) Dialog) \<Longrightarrow> t \<noteq> Dialog"
    using descendants_dialog[of "kids s" d] by auto
  then show ?thesis
    using hide_changes_state[of s] by (auto simp: ignoreHandler_def)
qed

theorem ignoreHandler_hides_iff_witness:
  "tree_ok (kids (new_Template \<lparr>modal = None, canIgnore = Some True\<rparr> 0))
   \<and> ContentSlot \<in> set (descendants (Suc 0)
         (kids (new_Template \<lparr>modal = None, canIgnore = Some True\<rparr> 0)) Dialog)
   \<and> ignoreHandler ContentSlot (new_Template \<lparr>modal = None, canIgnore = Some True\<rparr> 0)
       = new_Template \<lparr>modal = None, canIgnore = Some True\<rparr> 0
   \<and> ignoreHandler Dialog (new_Template \<lparr>modal = None, canIgnore = Some True\<rparr> 0)
       = hide (new_Template \<lparr>modal = None, canIgnore = Some True\<rparr> 0)
   \<and> \<not> truthy (canIgnore (properties (new_Template \<lparr>modal = None, canIgnore = Some False\<rparr> 0)))
   \<and> ignoreHandler Dialog (new_Template \<lparr>modal = None, canIgnore = Some False\<rparr> 0)
       = new_Template \<lparr>modal = None, canIgnore = Some False\<rparr> 0"
  using ignoreHandler_hides_iff
      [of ContentSlot "new_Template \<lparr>modal = None, canIgnore = Some True\<rparr> 0" "Suc 0"]
    ignoreHandler_hides_iff
      [of Dialog "new_Template \<lparr>modal = None, canIgnore = Some True\<rparr> 0" 0]
    ignoreHandler_hides_iff
      [of Dialog "new_Template \<lparr>modal = None, canIgnore = Some False\<rparr> 0" 0]
  by (simp add: tree_ok_new) (simp add: new_Template_def truthy_def)

section \<open>The confirmation channel\<close>

lemma success_frame:
  "kids (success s) = kids s" "confirmation (success s) = confirmation s"
  "properties (success s) = properties s"
  by (simp_all add: success_def dispatchEvent_def split: option.splits)

lemma failure_frame:
  "kids (failure s) = kids s" "confirmation (failure s) = confirmation s"
  "properties (failure s) = properties s"
  by (simp_all add: failure_def dispatchEvent_def split: option.splits)

lemma wait_eq:
  "wait s = (length (promises s),
     s\<lparr>promises := promises s @ [Pending], confirmation := Some (Resolve (length (promises s)))\<rparr>)"
  by (simp add: wait_def Let_def)

lemma ignoreHandler_frame:
  "confirmation (ignoreHandler t s) = confirmation s" "promises (ignoreHandler t s) = promises s"
  by (simp_all add: ignoreHandler_def hide_frame)

lemma ignoreHandler_tree_ok: "tree_ok (kids s) \<Longrightarrow> tree_ok (kids (ignoreHandler t s))"
  by (simp add: ignoreHandler_def hide_tree_ok)

lemma show_dialog_frame:
  assumes "show_dialog m s = Inr s'"
  shows "confirmation s' = confirmation s \<and> promises s' = promises s"
  using assms
  by (auto simp: show_dialog_def dispatchEvent_def split: sum.splits if_splits)

lemma step_tree_ok:
  assumes "tree_ok (kids s)"
  shows "\<exists>s'. step x s = Inr s' \<and> tree_ok (kids s')"
proof (cases x)
  case (Show m)
  from show_dialog_ok[OF assms, of m] obtain k' where
    "show_dialog m s = Inr (dispatchEvent Skeleton (notification ''show'') (s\<lparr>kids := k'\<rparr>))"
    "tree_ok k'" by blast
  then show ?thesis using Show by (simp add: dispatchEvent_def)
next
  case Hide
  then show ?thesis using assms by (simp add: hide_tree_ok)
next
  case Wait
  then show ?thesis using assms by (simp add: wait_eq)
next
  case Success
  then show ?thesis using assms by (simp add: success_frame)
next
  case Failure
  then show ?thesis using assms by (simp add: failure_frame)
next
  case (Click t)
  then show ?thesis using assms by (simp add: ignoreHandler_tree_ok)
qed

lemma run_tree_ok:
  "tree_ok (kids s) \<Longrightarrow> \<exists>s'. run xs s = Inr s' \<and> tree_ok (kids s')"
proof (induction xs arbitrary: s)
  case Nil
  then show ?case by simp
next
  case (Cons x xs)
  from step_tree_ok[OF Cons.prems, of x] obtain s1 where
    s1: "step x s = Inr s1" "tree_ok (kids s1)" by blast
  from Cons.IH[OF s1(2)] show ?case using s1(1) by simp
qed

text \<open>Steps other than wait, success and failure leave the channel alone.\<close>

lemma step_quiet:
  assumes "step x s = Inr s'" and "x \<noteq> Wait" and "x \<noteq> Success" and "x \<noteq> Failure"
  shows "confirmation s' = confirmation s \<and> promises s' = promises s"
  using assms
  by (cases x) (auto simp: hide_frame ignoreHandler_frame dest: show_dialog_frame)

lemma run_quiet:
  assumes "run xs s = Inr s'" and "\<forall>x\<in>set xs. x \<noteq> Wait \<and> x \<noteq> Success \<and> x \<noteq> Failure"
  shows "confirmation s' = confirmation s \<and> promises s' = promises s"
  using assms
proof (induction xs arbitrary: s)
  case Nil
  then show ?case by simp
next
  case (Cons x xs)
  from Cons.prems(1) obtain s1 where s1: "step x s = Inr s1" "run xs s1 = Inr s'"
    by (auto split: sum.splits)
  from step_quiet[OF s1(1)] Cons.prems(2)
  have "confirmation s1 = confirmation s \<and> promises s1 = promises s" by simp
  moreover from Cons.IH[OF s1(2)] Cons.prems(2)
  have "confirmation s' = confirmation s1 \<and> promises s' = promises s1" by simp
  ultimately show ?case by simp
qed

text \<open>Steps other than success and failure keep every promise there is.\<close>

lemma step_no_settle:
  assumes "step x s = Inr s'" and "x \<noteq> Success" and "x \<noteq> Failure"
    and "p < length (promises s)"
  shows "p < length (promises s') \<and> promises s' ! p = promises s ! p"
  using assms
  by (cases x) (auto simp: hide_frame ignoreHandler_frame wait_eq nth_append
      dest: show_dialog_frame)

lemma run_no_settle:
  assumes "run xs s = Inr s'" and "Success \<notin> set xs" and "Failure \<notin> set xs"
    and "p < length (promises s)"
  shows "p < length (promises s') \<and> promises s' ! p = promises s ! p"
  using assms
proof (induction xs arbitrary: s)
  case Nil
  then show ?case by simp
next
  case (Cons x xs)
  from Cons.prems(1) obtain s1 where s1: "step x s = Inr s1" "run xs s1 = Inr s'"
    by (auto split: sum.splits)
  from Cons.prems have x: "x \<noteq> Success" "x \<noteq> Failure" by auto
  from step_no_settle[OF s1(1) x Cons.prems(4)]
  have p1: "p < length (promises s1)" "promises s1 ! p = promises s ! p" by simp_all
  from Cons.IH[OF s1(2) _ _ p1(1)] Cons.prems(2,3) p1(2) show ?case by simp
qed

lemma step_orphan:
  assumes "step x s = Inr s'" and "orphan p s"
  shows "orphan p s'"
proof (cases x)
  case (Show m)
  with assms show ?thesis by (auto simp: orphan_def dest: show_dialog_frame)
next
  case Hide
  with assms show ?thesis by (auto simp: orphan_def hide_frame)
next
  case Wait
  with assms show ?thesis by (auto simp: orphan_def wait_eq nth_append)
next
  case Success
  with assms show ?thesis
    by (auto simp: orphan_def success_def dispatchEvent_def settle_def)
next
  case Failure
  with assms show ?thesis
    by (auto simp: orphan_def failure_def dispatchEvent_def settle_def)
next
  case (Click t)
  with assms show ?thesis by (auto simp: orphan_def ignoreHandler_frame)
qed

lemma run_orphan: "run xs s = Inr s' \<Longrightarrow> orphan p s \<Longrightarrow> orphan p s'"
proof (induction xs arbitrary: s)
  case Nil
  then show ?case by simp
next
  case (Cons x xs)
  from Cons.prems(1) obtain s1 where s1: "step x s = Inr s1" "run xs s1 = Inr s'"
    by (auto split: sum.splits)
  from Cons.IH[OF s1(2) step_orphan[OF s1(1) Cons.prems(2)]] show ?case .
qed

lemma settle_pending:
  assumes "confirmation s = Some (Resolve p)" and "p < length (promises s)"
    and "promises s ! p = Pending"
  shows "promises (success s) = (promises s)[p := Fulfilled True]"
    and "promises (failure s) = (promises s)[p := Fulfilled False]"
  using assms by (simp_all add: success_def failure_def dispatchEvent_def settle_def)

lemma dispatched_success:
  "confirmation s = Some c \<Longrightarrow> dispatched (success s) = dispatched s @
     [\<lparr>target = Skeleton, event = notification ''success'',
       seen_kids = kids (success s), seen_promises = promises (success s)\<rparr>]"
  by (simp add: success_def dispatchEvent_def)

lemma dispatched_failure:
  "confirmation s = Some c \<Longrightarrow> dispatched (failure s) = dispatched s @
     [\<lparr>target = Skeleton, event = notification ''failure'',
       seen_kids = kids (failure s), seen_promises = promises (failure s)\<rparr>]"
  by (simp add: failure_def dispatchEvent_def)

lemma call_resolve_nth:
  assumes "i < length ps"
  shows "length (call (Resolve q) b ps) = length ps
     \<and> (call (Resolve q) b ps ! i = ps ! i
        \<or> (ps ! i = Pending \<and> call (Resolve q) b ps ! i = Fulfilled b))"
  using assms by (auto simp: settle_def nth_list_update)

lemma call_resolve_set:
  "set (call (Resolve q) b ps) \<subseteq> insert (Fulfilled b) (set ps)"
  using set_update_subset_insert[of ps q "Fulfilled b"] by (auto simp: settle_def)

lemma step_change:
  assumes "step x s = Inr s'" and "\<forall>q. confirmation s \<noteq> Some (Reject q)"
    and "i < length (promises s)"
  shows "i < length (promises s') \<and>
     (promises s' ! i = promises s ! i
      \<or> promises s ! i = Pending \<and>
        (x = Success \<and> promises s' ! i = Fulfilled True
         \<or> x = Failure \<and> promises s' ! i = Fulfilled False))"
proof (cases x)
  case Success
  show ?thesis
  proof (cases "confirmation s")
    case None
    with Success assms show ?thesis by (auto simp: success_def)
  next
    case (Some c)
    with assms(2) obtain q where c: "c = Resolve q" by (cases c) auto
    from call_resolve_nth[OF assms(3), of q True] Some c Success assms(1,3)
    show ?thesis by (auto simp: success_def dispatchEvent_def)
  qed
next
  case Failure
  show ?thesis
  proof (cases "confirmation s")
    case None
    with Failure assms show ?thesis by (auto simp: failure_def)
  next
    case (Some c)
    with assms(2) obtain q where c: "c = Resolve q" by (cases c) auto
    from call_resolve_nth[OF assms(3), of q False] Some c Failure assms(1,3)
    show ?thesis by (auto simp: failure_def dispatchEvent_def)
  qed
qed (use assms step_no_settle[OF assms(1) _ _ assms(3)] in auto)

lemma step_resolving:
  assumes "step x s = Inr s'" and "resolving s"
  shows "resolving s'"
proof (cases x)
  case (Show m)
  with assms show ?thesis by (auto simp: resolving_def dest: show_dialog_frame)
next
  case Hide
  with assms show ?thesis by (auto simp: resolving_def hide_frame)
next
  case Wait
  with assms show ?thesis by (auto simp: resolving_def wait_eq)
next
  case Success
  show ?thesis
  proof (cases "confirmation s")
    case None
    with Success assms show ?thesis by (auto simp: success_def)
  next
    case (Some c)
    with assms(2) obtain q where c: "c = Resolve q" by (cases c) (auto simp: resolving_def)
    from call_resolve_set[of q True "promises s"] Some c Success assms
    show ?thesis by (auto simp: success_def dispatchEvent_def resolving_def)
  qed
next
  case Failure
  show ?thesis
  proof (cases "confirmation s")
    case None
    with Failure assms show ?thesis by (auto simp: failure_def)
  next
    case (Some c)
    with assms(2) obtain q where c: "c = Resolve q" by (cases c) (auto simp: resolving_def)
    from call_resolve_set[of q False "promises s"] Some c Failure assms
    show ?thesis by (auto simp: failure_def dispatchEvent_def resolving_def)
  qed
next
  case (Click t)
  with assms show ?thesis by (auto simp: resolving_def ignoreHandler_frame)
qed

lemma run_resolving: "run xs s = Inr s' \<Longrightarrow> resolving s \<Longrightarrow> resolving s'"
proof (induction xs arbitrary: s)
  case Nil
  then show ?case by simp
next
  case (Cons x xs)
  from Cons.prems(1) obtain s1 where s1: "step x s = Inr s1" "run xs s1 = Inr s'"
    by (auto split: sum.splits)
  from Cons.IH[OF s1(2) step_resolving[OF s1(1) Cons.prems(2)]] show ?case .
qed

lemma resolving_new: "resolving (new_Template props n)"
  by (simp add: resolving_def new_Template_def)

text \<open>
  C3. Take a widget with a well-shaped tree, call \<^verbatim>\<open>wait\<close> (promise \<open>p1\<close>),
  run any operations other than \<^verbatim>\<open>success\<close> and \<^verbatim>\<open>failure\<close>, and call
  \<^verbatim>\<open>wait\<close> again (promise \<open>p2\<close>). Nothing raises; after further operations
  that are neither \<^verbatim>\<open>wait\<close> nor \<^verbatim>\<open>success\<close> nor \<^verbatim>\<open>failure\<close>, the
  next \<^verbatim>\<open>success\<close> fulfils \<open>p2\<close> with true and the next \<^verbatim>\<open>failure\<close>
  fulfils it with false, while \<open>p1\<close> stays pending; and whatever operations follow the
  second \<^verbatim>\<open>wait\<close>, \<open>p1\<close> is pending after them.
\<close>

theorem second_wait_orphans_first:
  assumes "tree_ok (kids s)"
    and "wait s = (p1, s1)"
    and "Success \<notin> set mid \<and> Failure \<notin> set mid"
    and "Wait \<notin> set aft \<and> Success \<notin> set aft \<and> Failure \<notin> set aft"
  shows "\<exists>s1' p2 s2 s2'. run mid s1 = Inr s1' \<and> wait s1' = (p2, s2) \<and> run aft s2 = Inr s2'
     \<and> p1 \<noteq> p2
     \<and> promises s2' ! p1 = Pending \<and> promises s2' ! p2 = Pending
     \<and> promises (success s2') ! p2 = Fulfilled True \<and> promises (success s2') ! p1 = Pending
     \<and> promises (failure s2') ! p2 = Fulfilled False \<and> promises (failure s2') ! p1 = Pending
     \<and> (\<forall>rest. \<exists>s3. run rest s2 = Inr s3 \<and> p1 < length (promises s3)
            \<and> promises s3 ! p1 = Pending)"
proof -
  from assms(2) have p1: "p1 = length (promises s)"
    and s1: "s1 = s\<lparr>promises := promises s @ [Pending], confirmation := Some (Resolve p1)\<rparr>"
    by (auto simp: wait_eq)
  have ok1: "tree_ok (kids s1)" using assms(1) s1 by simp
  have pend1: "p1 < length (promises s1)" "promises s1 ! p1 = Pending"
    using p1 s1 by simp_all
  from run_tree_ok[OF ok1, of mid] obtain s1' where
    s1': "run mid s1 = Inr s1'" "tree_ok (kids s1')" by blast
  from run_no_settle[OF s1'(1) _ _ pend1(1)] assms(3) pend1(2)
  have pend1': "p1 < length (promises s1')" "promises s1' ! p1 = Pending" by simp_all
  define p2 where "p2 = length (promises s1')"
  define s2 where
    "s2 = s1'\<lparr>promises := promises s1' @ [Pending], confirmation := Some (Resolve p2)\<rparr>"
  have w2: "wait s1' = (p2, s2)" by (simp add: wait_eq p2_def s2_def)
  have ne: "p1 \<noteq> p2" using pend1'(1) by (simp add: p2_def)
  have ok2: "tree_ok (kids s2)" using s1'(2) by (simp add: s2_def)
  have orph: "orphan p1 s2"
    using pend1' ne by (simp add: orphan_def s2_def nth_append)
  from run_tree_ok[OF ok2, of aft] obtain s2' where
    s2': "run aft s2 = Inr s2'" by blast
  have quiet: "\<forall>x\<in>set aft. x \<noteq> Wait \<and> x \<noteq> Success \<and> x \<noteq> Failure"
    using assms(4) by auto
  from run_quiet[OF s2' quiet]
  have q: "confirmation s2' = Some (Resolve p2)" "promises s2' = promises s1' @ [Pending]"
    by (simp_all add: s2_def)
  have len2: "p2 < length (promises s2')" and pend2: "promises s2' ! p2 = Pending"
    using q(2) by (simp_all add: p2_def)
  have pend1'': "promises s2' ! p1 = Pending"
    using q(2) pend1' by (simp add: nth_append)
  have len1: "p1 < length (promises s2')" using q(2) pend1'(1) by simp
  have su: "promises (success s2') ! p2 = Fulfilled True"
      "promises (success s2') ! p1 = Pending"
    using settle_pending(1)[OF q(1) len2 pend2] len2 len1 ne pend1'' by simp_all
  have fa: "promises (failure s2') ! p2 = Fulfilled False"
      "promises (failure s2') ! p1 = Pending"
    using settle_pending(2)[OF q(1) len2 pend2] len2 len1 ne pend1'' by simp_all
  have rest: "\<exists>s3. run rest s2 = Inr s3 \<and> p1 < length (promises s3)
      \<and> promises s3 ! p1 = Pending" for rest
  proof -
    from run_tree_ok[OF ok2, of rest] obtain s3 where s3: "run rest s2 = Inr s3" by blast
    from run_orphan[OF s3 orph] show ?thesis using s3 by (auto simp: orphan_def)
  qed
  show ?thesis
    using s1'(1) w2 s2' ne pend1'' pend2 su fa rest by blast
qed

theorem second_wait_orphans_first_witness:
  "tree_ok (kids (new_Template \<lparr>modal = None, canIgnore = None\<rparr> 0))
   \<and> wait (new_Template \<lparr>modal = None, canIgnore = None\<rparr> 0)
       = (0, snd (wait (new_Template \<lparr>modal = None, canIgnore = None\<rparr> 0)))
   \<and> Success \<notin> set [Show None, Hide] \<and> Failure \<notin> set [Show None, Hide]
   \<and> Wait \<notin> set [Click Dialog] \<and> Success \<notin> set [Click Dialog]
   \<and> Failure \<notin> set [Click Dialog]
   \<and> (\<exists>s1' p2 s2 s2'.
        run [Show None, Hide] (snd (wait (new_Template \<lparr>modal = None, canIgnore = None\<rparr> 0)))
          = Inr s1'
        \<and> wait s1' = (p2, s2) \<and> run [Click Dialog] s2 = Inr s2' \<and> 0 \<noteq> p2
        \<and> promises (success s2') ! p2 = Fulfilled True \<and> promises (success s2') ! 0 = Pending
        \<and> promises (failure s2') ! p2 = Fulfilled False \<and> promises (failure s2') ! 0 = Pending
        \<and> (\<forall>rest. \<exists>s3. run rest s2 = Inr s3 \<and> 0 < length (promises s3)
               \<and> promises s3 ! 0 = Pending))"
proof -
  have h: "tree_ok (kids (new_Template \<lparr>modal = None, canIgnore = None\<rparr> 0))"
    by (rule tree_ok_new)
  have w: "wait (new_Template \<lparr>modal = None, canIgnore = None\<rparr> 0)
       = (0, snd (wait (new_Template \<lparr>modal = None, canIgnore = None\<rparr> 0)))"
    by (simp add: wait_eq new_Template_def)
  have m: "Success \<notin> set [Show None, Hide] \<and> Failure \<notin> set [Show None, Hide]" by simp
  have a: "Wait \<notin> set [Click Dialog] \<and> Success \<notin> set [Click Dialog]
      \<and> Failure \<notin> set [Click Dialog]" by simp
  from second_wait_orphans_first[OF h w m a] h w show ?thesis by auto
qed

text \<open>
  C5. After \<^verbatim>\<open>wait\<close> has returned the promise \<open>p\<close>, and any operations that
  are neither \<^verbatim>\<open>wait\<close> nor \<^verbatim>\<open>success\<close> nor \<^verbatim>\<open>failure\<close>, the promise
  is pending and its resolving function is the stored one. Then \<^verbatim>\<open>success\<close> fulfils
  \<open>p\<close> with true and dispatches one \<^verbatim>\<open>success\<close> notification;
  \<^verbatim>\<open>failure\<close> fulfils it with false and dispatches one \<^verbatim>\<open>failure\<close>
  notification. No other promise changes.
\<close>

theorem success_failure_settle_latest:
  assumes "tree_ok (kids s0)"
    and "wait s0 = (p, s1)"
    and "Wait \<notin> set ops \<and> Success \<notin> set ops \<and> Failure \<notin> set ops"
  shows "\<exists>s. run ops s1 = Inr s \<and> confirmation s = Some (Resolve p)
     \<and> p < length (promises s) \<and> promises s ! p = Pending
     \<and> promises (success s) = (promises s)[p := Fulfilled True]
     \<and> promises (success s) ! p = Fulfilled True
     \<and> map (\<lambda>ob. (target ob, event ob)) (dispatched (success s))
         = map (\<lambda>ob. (target ob, event ob)) (dispatched s) @ [(Skeleton, notification ''success'')]
     \<and> promises (failure s) = (promises s)[p := Fulfilled False]
     \<and> promises (failure s) ! p = Fulfilled False
     \<and> map (\<lambda>ob. (target ob, event ob)) (dispatched (failure s))
         = map (\<lambda>ob. (target ob, event ob)) (dispatched s) @ [(Skeleton, notification ''failure'')]"
proof -
  from assms(2) have p: "p = length (promises s0)"
    and s1: "s1 = s0\<lparr>promises := promises s0 @ [Pending], confirmation := Some (Resolve p)\<rparr>"
    by (auto simp: wait_eq)
  have "tree_ok (kids s1)" using assms(1) s1 by simp
  from run_tree_ok[OF this, of ops] obtain s where s: "run ops s1 = Inr s" by blast
  have quiet: "\<forall>x\<in>set ops. x \<noteq> Wait \<and> x \<noteq> Success \<and> x \<noteq> Failure"
    using assms(3) by auto
  from run_quiet[OF s quiet]
  have c: "confirmation s = Some (Resolve p)" and ps: "promises s = promises s0 @ [Pending]"
    by (simp_all add: s1)
  have len: "p < length (promises s)" and pend: "promises s ! p = Pending"
    using ps p by simp_all
  note st = settle_pending[OF c len pend]
  show ?thesis
    using s c len pend st dispatched_success[OF c] dispatched_failure[OF c] by simp
qed

theorem success_failure_settle_latest_witness:
  "tree_ok (kids (new_Template \<lparr>modal = None, canIgnore = None\<rparr> 0))
   \<and> wait (new_Template \<lparr>modal = None, canIgnore = None\<rparr> 0)
       = (0, snd (wait (new_Template \<lparr>modal = None, canIgnore = None\<rparr> 0)))
   \<and> Wait \<notin> set [Show (Some True), Hide] \<and> Success \<notin> set [Show (Some True), Hide]
   \<and> Failure \<notin> set [Show (Some True), Hide]
   \<and> (\<exists>s. run [Show (Some True), Hide]
              (snd (wait (new_Template \<lparr>modal = None, canIgnore = None\<rparr> 0))) = Inr s
        \<and> promises s ! 0 = Pending
        \<and> promises (success s) ! 0 = Fulfilled True
        \<and> promises (failure s) ! 0 = Fulfilled False
        \<and> map (\<lambda>ob. etype (event ob)) (dispatched (success s)) = [''show'', ''hide'', ''success'']
        \<and> map (\<lambda>ob. etype (event ob)) (dispatched (failure s)) = [''show'', ''hide'', ''failure''])"
proof -
  let ?s0 = "new_Template \<lparr>modal = None, canIgnore = None\<rparr> 0"
  have h: "tree_ok (kids ?s0)" by (rule tree_ok_new)
  have w: "wait ?s0 = (0, snd (wait ?s0))" by (simp add: wait_eq new_Template_def)
  have a: "Wait \<notin> set [Show (Some True), Hide] \<and> Success \<notin> set [Show (Some True), Hide]
      \<and> Failure \<notin> set [Show (Some True), Hide]"
    by simp
  from success_failure_settle_latest[OF h w a] obtain s where
    s: "run [Show (Some True), Hide] (snd (wait ?s0)) = Inr s"
      "promises s ! 0 = Pending" "confirmation s = Some (Resolve 0)"
      "promises (success s) ! 0 = Fulfilled True"
      "promises (failure s) ! 0 = Fulfilled False"
    by blast
  have "run [Show (Some True), Hide] (snd (wait ?s0)) = Inr s'
      \<Longrightarrow> map (\<lambda>ob. etype (event ob)) (dispatched s') = [''show'', ''hide'']" for s'
    by (simp add: model_defs) auto
  from this[OF s(1)]
  have d: "map (\<lambda>ob. etype (event ob)) (dispatched s) = [''show'', ''hide'']" .
  have "map (\<lambda>ob. etype (event ob)) (dispatched (success s)) = [''show'', ''hide'', ''success'']"
    "map (\<lambda>ob. etype (event ob)) (dispatched (failure s)) = [''show'', ''hide'', ''failure'']"
    using d dispatched_success[OF s(3)] dispatched_failure[OF s(3)]
    by (simp_all add: notification_def)
  with s(1,2,4,5) have "\<exists>s. run [Show (Some True), Hide] (snd (wait ?s0)) = Inr s
        \<and> promises s ! 0 = Pending
        \<and> promises (success s) ! 0 = Fulfilled True
        \<and> promises (failure s) ! 0 = Fulfilled False
        \<and> map (\<lambda>ob. etype (event ob)) (dispatched (success s)) = [''show'', ''hide'', ''success'']
        \<and> map (\<lambda>ob. etype (event ob)) (dispatched (failure s)) = [''show'', ''hide'', ''failure'']"
    by (intro exI[of _ s]) simp
  moreover have "Wait \<notin> set [Show (Some True), Hide]"
    "Success \<notin> set [Show (Some True), Hide]" "Failure \<notin> set [Show (Some True), Hide]"
    by simp_all
  ultimately show ?thesis using h w by (intro conjI)
qed

text \<open>
  C4, as the code has it. With no settle-function stored, \<^verbatim>\<open>success\<close> and
  \<^verbatim>\<open>failure\<close> return the state they were given. Neither method ever clears the
  stored function, so once the promise of the last \<^verbatim>\<open>wait\<close> is settled a further
  \<^verbatim>\<open>success\<close> or \<^verbatim>\<open>failure\<close> changes no promise and no node, but it does
  dispatch its notification.
\<close>

theorem settle_without_stored_function:
  "(confirmation s = None \<longrightarrow> success s = s \<and> failure s = s)
   \<and> confirmation (success s) = confirmation s \<and> confirmation (failure s) = confirmation s
   \<and> (confirmation s = Some (Resolve p) \<and> p < length (promises s) \<and> promises s ! p \<noteq> Pending
        \<longrightarrow> promises (success s) = promises s \<and> kids (success s) = kids s
          \<and> map (\<lambda>ob. (target ob, event ob)) (dispatched (success s))
              = map (\<lambda>ob. (target ob, event ob)) (dispatched s)
                  @ [(Skeleton, notification ''success'')]
          \<and> promises (failure s) = promises s \<and> kids (failure s) = kids s
          \<and> map (\<lambda>ob. (target ob, event ob)) (dispatched (failure s))
              = map (\<lambda>ob. (target ob, event ob)) (dispatched s)
                  @ [(Skeleton, notification ''failure'')])"
  by (simp add: success_frame failure_frame)
     (simp add: success_def failure_def dispatchEvent_def settle_def)

theorem settle_without_stored_function_witness:
  "confirmation (new_Template \<lparr>modal = None, canIgnore = None\<rparr> 0) = None
   \<and> success (new_Template \<lparr>modal = None, canIgnore = None\<rparr> 0)
       = new_Template \<lparr>modal = None, canIgnore = None\<rparr> 0
   \<and> failure (new_Template \<lparr>modal = None, canIgnore = None\<rparr> 0)
       = new_Template \<lparr>modal = None, canIgnore = None\<rparr> 0
   \<and> confirmation (success (snd (wait (new_Template \<lparr>modal = None, canIgnore = None\<rparr> 0))))
       = Some (Resolve 0)
   \<and> promises (success (snd (wait (new_Template \<lparr>modal = None, canIgnore = None\<rparr> 0)))) ! 0
       \<noteq> Pending
   \<and> promises (failure (success (snd (wait (new_Template \<lparr>modal = None, canIgnore = None\<rparr> 0)))))
       = promises (success (snd (wait (new_Template \<lparr>modal = None, canIgnore = None\<rparr> 0))))
   \<and> map (\<lambda>ob. (target ob, event ob))
        (dispatched (failure (success (snd (wait (new_Template \<lparr>modal = None, canIgnore = None\<rparr> 0))))))
       = [(Skeleton, notification ''success''), (Skeleton, notification ''failure'')]"
  using settle_without_stored_function
      [of "new_Template \<lparr>modal = None, canIgnore = None\<rparr> 0" 0]
    settle_without_stored_function
      [of "success (snd (wait (new_Template \<lparr>modal = None, canIgnore = None\<rparr> 0)))" 0]
  by (simp add: new_Template_def wait_eq success_def dispatchEvent_def settle_def)

text \<open>
  C4 as the claim words it fails in the state reached by \<^verbatim>\<open>wait\<close> and
  \<^verbatim>\<open>success\<close>: the promise is fulfilled, and \<^verbatim>\<open>failure\<close> still dispatches
  a \<^verbatim>\<open>failure\<close> notification.
\<close>

theorem failure_after_settled_notifies_counterexample:
  "(case run [Wait, Success] (new_Template \<lparr>modal = None, canIgnore = None\<rparr> 0) of
      Inl e \<Rightarrow> False
    | Inr s \<Rightarrow> promises s = [Fulfilled True]
        \<and> map (\<lambda>ob. etype (event ob)) (dispatched s) = [''success'']
        \<and> promises (failure s) = [Fulfilled True]
        \<and> map (\<lambda>ob. etype (event ob)) (dispatched (failure s)) = [''success'', ''failure''])"
  by (simp add: model_defs)

text \<open>
  C10. From a widget with a well-shaped tree, no rejecting function stored and no
  rejected promise (the constructor gives one), every run of operations returns, and
  leaves no rejecting function stored and no promise rejected. The promise that
  \<^verbatim>\<open>wait\<close> returns is pending and the stored function is its resolving one. A
  single operation changes a promise only from pending, and only to fulfilled: with true
  by \<^verbatim>\<open>success\<close>, with false by \<^verbatim>\<open>failure\<close>.
\<close>

theorem wait_promise_never_rejects:
  assumes "tree_ok (kids s)" and "resolving s"
  shows "\<exists>s'. run xs s = Inr s' \<and> resolving s'
     \<and> (\<forall>r. Rejected r \<notin> set (promises s'))
     \<and> promises (snd (wait s')) ! fst (wait s') = Pending
     \<and> confirmation (snd (wait s')) = Some (Resolve (fst (wait s')))
     \<and> (\<forall>x s'' i. step x s' = Inr s'' \<and> i < length (promises s')
           \<and> promises s'' ! i \<noteq> promises s' ! i
          \<longrightarrow> promises s' ! i = Pending
              \<and> (x = Success \<and> promises s'' ! i = Fulfilled True
                 \<or> x = Failure \<and> promises s'' ! i = Fulfilled False))"
proof -
  from run_tree_ok[OF assms(1), of xs] obtain s' where s': "run xs s = Inr s'" by blast
  have r: "resolving s'" using run_resolving[OF s' assms(2)] .
  have "promises s'' ! i = promises s' ! i
      \<or> promises s' ! i = Pending
        \<and> (x = Success \<and> promises s'' ! i = Fulfilled True
           \<or> x = Failure \<and> promises s'' ! i = Fulfilled False)"
    if "step x s' = Inr s''" "i < length (promises s')" for x s'' i
    using step_change[OF that(1) _ that(2)] r by (simp add: resolving_def)
  then have ch: "\<forall>x s'' i. step x s' = Inr s'' \<and> i < length (promises s')
           \<and> promises s'' ! i \<noteq> promises s' ! i
          \<longrightarrow> promises s' ! i = Pending
              \<and> (x = Success \<and> promises s'' ! i = Fulfilled True
                 \<or> x = Failure \<and> promises s'' ! i = Fulfilled False)"
    by blast
  have w: "promises (snd (wait s')) ! fst (wait s') = Pending
     \<and> confirmation (snd (wait s')) = Some (Resolve (fst (wait s')))"
    by (simp add: wait_eq)
  from s' r ch w show ?thesis by (auto simp: resolving_def)
qed

theorem wait_promise_never_rejects_witness:
  "tree_ok (kids (new_Template \<lparr>modal = None, canIgnore = None\<rparr> 0))
   \<and> resolving (new_Template \<lparr>modal = None, canIgnore = None\<rparr> 0)
   \<and> (\<exists>s'. run [Wait, Failure, Wait, Hide, Success]
               (new_Template \<lparr>modal = None, canIgnore = None\<rparr> 0) = Inr s'
         \<and> resolving s' \<and> (\<forall>r. Rejected r \<notin> set (promises s')))"
  using wait_promise_never_rejects
    [of "new_Template \<lparr>modal = None, canIgnore = None\<rparr> 0" "[Wait, Failure, Wait, Hide, Success]"]
    tree_ok_new[of "\<lparr>modal = None, canIgnore = None\<rparr>" 0]
    resolving_new[of "\<lparr>modal = None, canIgnore = None\<rparr>" 0]
  by blast

section \<open>Notifications\<close>

lemma show_dialog_observed:
  assumes ok: "tree_ok (kids s)"
  shows "\<exists>s'. show_dialog m s = Inr s'
     \<and> dispatched s' = dispatched s @
          [\<lparr>target = Skeleton, event = notification ''show'',
            seen_kids = kids s', seen_promises = promises s'\<rparr>]
     \<and> seen_kids (last (dispatched s')) Wrapper = [Dialog]
     \<and> in_tree (seen_kids (last (dispatched s'))) Dialog
     \<and> (truthy m \<or> truthy (modal (properties s)) \<longrightarrow>
          immediately_before ModalSlot Wrapper (seen_kids (last (dispatched s')) ShadowRoot)
          \<and> in_tree (seen_kids (last (dispatched s'))) ModalSlot)
     \<and> promises s' = promises s \<and> confirmation s' = confirmation s"
proof -
  from show_dialog_ok[OF ok, of m] obtain k' where
    k': "show_dialog m s = Inr (dispatchEvent Skeleton (notification ''show'') (s\<lparr>kids := k'\<rparr>))"
      "tree_ok k'" "k' Wrapper = [Dialog]"
      "k' ShadowRoot = (if truthy m \<or> truthy (modal (properties s))
                        then [Styles, ModalSlot, Wrapper] else kids s ShadowRoot)"
    by blast
  have "in_tree k' Dialog" using k'(2,3) by (rule in_tree_dialog)
  moreover have "truthy m \<or> truthy (modal (properties s)) \<Longrightarrow>
      immediately_before ModalSlot Wrapper (k' ShadowRoot) \<and> in_tree k' ModalSlot"
    using k'(4) by (simp add: in_tree_shadow_child)
  ultimately show ?thesis using k'(1,3) by (auto simp: dispatchEvent_def)
qed

lemma hide_observed:
  "seen_kids (last (dispatched (hide s))) = remove_node Dialog (remove_node ModalSlot (kids s))
   \<and> (\<forall>p. Dialog \<notin> set (seen_kids (last (dispatched (hide s))) p)
          \<and> ModalSlot \<notin> set (seen_kids (last (dispatched (hide s))) p))
   \<and> \<not> in_tree (seen_kids (last (dispatched (hide s)))) Dialog
   \<and> \<not> in_tree (seen_kids (last (dispatched (hide s)))) ModalSlot"
proof -
  have "seen_kids (last (dispatched (hide s))) = kids (hide s)"
    by (simp add: dispatched_hide)
  then show ?thesis
    by (simp add: hide_not_in_tree hide_no_parent) (simp add: kids_hide)
qed

lemma settled_observed:
  assumes "confirmation s = Some (Resolve p)" and "p < length (promises s)"
  shows "seen_promises (last (dispatched (success s))) ! p \<noteq> Pending"
    and "promises s ! p = Pending \<Longrightarrow>
          seen_promises (last (dispatched (success s))) ! p = Fulfilled True"
    and "seen_promises (last (dispatched (failure s))) ! p \<noteq> Pending"
    and "promises s ! p = Pending \<Longrightarrow>
          seen_promises (last (dispatched (failure s))) ! p = Fulfilled False"
  using assms
  by (auto simp: success_def failure_def dispatchEvent_def settle_def)

text \<open>
  C8, as the code has it. \<^verbatim>\<open>show\<close> and \<^verbatim>\<open>hide\<close> always dispatch their
  notification, as the last thing they do: the listener of \<^verbatim>\<open>show\<close> finds the
  dialog body attached in the wrapper and, when the modality holds, the backdrop right
  before the wrapper; the listener of \<^verbatim>\<open>hide\<close> finds the old tree without the
  dialog body and the backdrop. \<^verbatim>\<open>success\<close> and \<^verbatim>\<open>failure\<close> dispatch
  when a settle-function is stored, after they have called it: the listener finds the
  promises as that call leaves them, the promise of the stored function settled, with
  true or false if it was pending. In all four the observation holds the tree and
  the promises of the state the method returns. With no settle-function stored
  \<^verbatim>\<open>success\<close> and \<^verbatim>\<open>failure\<close> dispatch nothing.
\<close>

theorem notification_sees_final_state:
  "(tree_ok (kids s) \<longrightarrow> (\<exists>s'. show_dialog m s = Inr s'
        \<and> dispatched s' = dispatched s @
            [\<lparr>target = Skeleton, event = notification ''show'',
              seen_kids = kids s', seen_promises = promises s'\<rparr>]
        \<and> seen_kids (last (dispatched s')) Wrapper = [Dialog]
        \<and> in_tree (seen_kids (last (dispatched s'))) Dialog
        \<and> (truthy m \<or> truthy (modal (properties s)) \<longrightarrow>
             immediately_before ModalSlot Wrapper (seen_kids (last (dispatched s')) ShadowRoot)
             \<and> in_tree (seen_kids (last (dispatched s'))) ModalSlot)))
   \<and> dispatched (hide s) = dispatched s @
        [\<lparr>target = Skeleton, event = notification ''hide'',
          seen_kids = kids (hide s), seen_promises = promises (hide s)\<rparr>]
   \<and> seen_kids (last (dispatched (hide s))) = remove_node Dialog (remove_node ModalSlot (kids s))
   \<and> (\<forall>p. Dialog \<notin> set (seen_kids (last (dispatched (hide s))) p)
          \<and> ModalSlot \<notin> set (seen_kids (last (dispatched (hide s))) p))
   \<and> \<not> in_tree (seen_kids (last (dispatched (hide s)))) Dialog
   \<and> \<not> in_tree (seen_kids (last (dispatched (hide s)))) ModalSlot
   \<and> (confirmation s \<noteq> None \<longrightarrow>
        dispatched (success s) = dispatched s @
          [\<lparr>target = Skeleton, event = notification ''success'',
            seen_kids = kids (success s), seen_promises = promises (success s)\<rparr>]
        \<and> dispatched (failure s) = dispatched s @
          [\<lparr>target = Skeleton, event = notification ''failure'',
            seen_kids = kids (failure s), seen_promises = promises (failure s)\<rparr>])
   \<and> (\<forall>c. confirmation s = Some c \<longrightarrow>
        seen_promises (last (dispatched (success s))) = call c True (promises s)
        \<and> seen_promises (last (dispatched (failure s))) = call c False (promises s))
   \<and> (\<forall>p. confirmation s = Some (Resolve p) \<and> p < length (promises s) \<longrightarrow>
        seen_promises (last (dispatched (success s))) ! p \<noteq> Pending
        \<and> seen_promises (last (dispatched (failure s))) ! p \<noteq> Pending
        \<and> (promises s ! p = Pending \<longrightarrow>
             seen_promises (last (dispatched (success s))) ! p = Fulfilled True
             \<and> seen_promises (last (dispatched (failure s))) ! p = Fulfilled False))
   \<and> (confirmation s = None \<longrightarrow>
        dispatched (success s) = dispatched s \<and> dispatched (failure s) = dispatched s)"
proof -
  have sh: "tree_ok (kids s) \<longrightarrow> (\<exists>s'. show_dialog m s = Inr s'
        \<and> dispatched s' = dispatched s @
            [\<lparr>target = Skeleton, event = notification ''show'',
              seen_kids = kids s', seen_promises = promises s'\<rparr>]
        \<and> seen_kids (last (dispatched s')) Wrapper = [Dialog]
        \<and> in_tree (seen_kids (last (dispatched s'))) Dialog
        \<and> (truthy m \<or> truthy (modal (properties s)) \<longrightarrow>
             immediately_before ModalSlot Wrapper (seen_kids (last (dispatched s')) ShadowRoot)
             \<and> in_tree (seen_kids (last (dispatched s'))) ModalSlot))"
    using show_dialog_observed[of s m] by blast
  have su: "confirmation s \<noteq> None \<longrightarrow>
        dispatched (success s) = dispatched s @
          [\<lparr>target = Skeleton, event = notification ''success'',
            seen_kids = kids (success s), seen_promises = promises (success s)\<rparr>]
        \<and> dispatched (failure s) = dispatched s @
          [\<lparr>target = Skeleton, event = notification ''failure'',
            seen_kids = kids (failure s), seen_promises = promises (failure s)\<rparr>]"
    using dispatched_success[of s] dispatched_failure[of s] by auto
  have ca: "\<forall>c. confirmation s = Some c \<longrightarrow>
        seen_promises (last (dispatched (success s))) = call c True (promises s)
        \<and> seen_promises (last (dispatched (failure s))) = call c False (promises s)"
    by (simp add: success_def failure_def dispatchEvent_def)
  have se: "\<forall>p. confirmation s = Some (Resolve p) \<and> p < length (promises s) \<longrightarrow>
        seen_promises (last (dispatched (success s))) ! p \<noteq> Pending
        \<and> seen_promises (last (dispatched (failure s))) ! p \<noteq> Pending
        \<and> (promises s ! p = Pending \<longrightarrow>
             seen_promises (last (dispatched (success s))) ! p = Fulfilled True
             \<and> seen_promises (last (dispatched (failure s))) ! p = Fulfilled False)"
    using settled_observed[of s] by blast
  have no: "confirmation s = None \<longrightarrow>
        dispatched (success s) = dispatched s \<and> dispatched (failure s) = dispatched s"
    by (simp add: success_def failure_def)
  from sh dispatched_hide[of s] hide_observed[of s] su ca se no show ?thesis
    by (intro conjI) blast+
qed

theorem notification_sees_final_state_witness:
  "tree_ok (kids (snd (wait (new_Template \<lparr>modal = None, canIgnore = None\<rparr> 0))))
   \<and> (\<exists>s1. show_dialog (Some True) (snd (wait (new_Template \<lparr>modal = None, canIgnore = None\<rparr> 0)))
             = Inr s1
         \<and> confirmation s1 = Some (Resolve 0) \<and> promises s1 = [Pending]
         \<and> map (\<lambda>ob. etype (event ob)) (dispatched s1) = [''show'']
         \<and> seen_kids (last (dispatched s1)) ShadowRoot = [Styles, ModalSlot, Wrapper]
         \<and> seen_kids (last (dispatched s1)) Wrapper = [Dialog]
         \<and> seen_kids (last (dispatched (hide s1))) ShadowRoot = [Styles, Wrapper]
         \<and> seen_kids (last (dispatched (hide s1))) Wrapper = []
         \<and> seen_promises (last (dispatched (success s1))) = [Fulfilled True]
         \<and> seen_promises (last (dispatched (failure s1))) = [Fulfilled False])
   \<and> confirmation (new_Template \<lparr>modal = None, canIgnore = None\<rparr> 0) = None
   \<and> dispatched (success (new_Template \<lparr>modal = None, canIgnore = None\<rparr> 0)) = []"
proof -
  let ?s0 = "new_Template \<lparr>modal = None, canIgnore = None\<rparr> 0"
  have ok: "tree_ok (kids (snd (wait ?s0)))"
    using tree_ok_new[of "\<lparr>modal = None, canIgnore = None\<rparr>" 0] by (simp add: wait_eq)
  have n: "confirmation ?s0 = None" and d: "dispatched ?s0 = []"
    by (simp_all add: new_Template_def)
  have known: "show_dialog (Some True) (snd (wait ?s0)) = Inr s \<Longrightarrow>
      kids s ShadowRoot = [Styles, ModalSlot, Wrapper] \<and> kids s Wrapper = [Dialog]
      \<and> confirmation s = Some (Resolve 0) \<and> promises s = [Pending]
      \<and> map (\<lambda>ob. etype (event ob)) (dispatched s) = [''show'']" for s
    by (simp add: model_defs) auto
  from notification_sees_final_state[of "snd (wait ?s0)" "Some True"] ok
  obtain s1 where s1: "show_dialog (Some True) (snd (wait ?s0)) = Inr s1"
    "dispatched s1 = dispatched (snd (wait ?s0)) @
       [\<lparr>target = Skeleton, event = notification ''show'',
         seen_kids = kids s1, seen_promises = promises s1\<rparr>]"
    by blast
  note k = known[OF s1(1)]
  note h = notification_sees_final_state[of s1 None]
  have sh: "seen_kids (last (dispatched s1)) ShadowRoot = [Styles, ModalSlot, Wrapper]"
    "seen_kids (last (dispatched s1)) Wrapper = [Dialog]"
    using s1(2) k by simp_all
  from h have hk: "seen_kids (last (dispatched (hide s1)))
      = remove_node Dialog (remove_node ModalSlot (kids s1))"
    by (elim conjE)
  have hi: "seen_kids (last (dispatched (hide s1))) ShadowRoot = [Styles, Wrapper]"
    "seen_kids (last (dispatched (hide s1))) Wrapper = []"
    using k by (simp_all add: hk remove_node_def)
  from h have "\<forall>c. confirmation s1 = Some c \<longrightarrow>
        seen_promises (last (dispatched (success s1))) = call c True (promises s1)
        \<and> seen_promises (last (dispatched (failure s1))) = call c False (promises s1)"
    by (elim conjE)
  with k have ca: "seen_promises (last (dispatched (success s1)))
        = call (Resolve 0) True (promises s1)"
      "seen_promises (last (dispatched (failure s1))) = call (Resolve 0) False (promises s1)"
    by blast+
  have se: "seen_promises (last (dispatched (success s1))) = [Fulfilled True]"
    "seen_promises (last (dispatched (failure s1))) = [Fulfilled False]"
    using k by (simp_all add: ca settle_def)
  from s1(1) k sh hi se
  have first: "\<exists>s1. show_dialog (Some True) (snd (wait ?s0)) = Inr s1
         \<and> confirmation s1 = Some (Resolve 0) \<and> promises s1 = [Pending]
         \<and> map (\<lambda>ob. etype (event ob)) (dispatched s1) = [''show'']
         \<and> seen_kids (last (dispatched s1)) ShadowRoot = [Styles, ModalSlot, Wrapper]
         \<and> seen_kids (last (dispatched s1)) Wrapper = [Dialog]
         \<and> seen_kids (last (dispatched (hide s1))) ShadowRoot = [Styles, Wrapper]
         \<and> seen_kids (last (dispatched (hide s1))) Wrapper = []
         \<and> seen_promises (last (dispatched (success s1))) = [Fulfilled True]
         \<and> seen_promises (last (dispatched (failure s1))) = [Fulfilled False]"
    by (intro exI[of _ s1]) simp
  from notification_sees_final_state[of ?s0 None] n d
  have "dispatched (success ?s0) = []" by simp
  with ok first n show ?thesis by (intro conjI)
qed

text \<open>
  C8 as the claim words it fails for \<^verbatim>\<open>success\<close> and \<^verbatim>\<open>failure\<close> on a
  widget that has not been waited on: no settle-function is stored and the call
  dispatches nothing.
\<close>

theorem success_without_wait_emits_nothing_counterexample:
  "confirmation (new_Template \<lparr>modal = None, canIgnore = None\<rparr> 0) = None
   \<and> dispatched (success (new_Template \<lparr>modal = None, canIgnore = None\<rparr> 0)) = []
   \<and> dispatched (failure (new_Template \<lparr>modal = None, canIgnore = None\<rparr> 0)) = []"
  by (simp add: model_defs)

text \<open>
  C9, as the code has it. The \<^verbatim>\<open>success\<close> and \<^verbatim>\<open>failure\<close> notifications
  are dispatched on the skeleton, the root element of the widget and host of the shadow
  tree, as bubbling events that cannot be cancelled.
\<close>

theorem confirmation_events_on_skeleton:
  "confirmation s \<noteq> None \<longrightarrow>
     dispatched (success s) \<noteq> [] \<and> dispatched (failure s) \<noteq> []
     \<and> target (last (dispatched (success s))) = Skeleton
     \<and> event (last (dispatched (success s)))
         = \<lparr>etype = ''success'', bubbles = True, cancelable = False\<rparr>
     \<and> target (last (dispatched (failure s))) = Skeleton
     \<and> event (last (dispatched (failure s)))
         = \<lparr>etype = ''failure'', bubbles = True, cancelable = False\<rparr>
     \<and> length (dispatched (success s)) = Suc (length (dispatched s))
     \<and> length (dispatched (failure s)) = Suc (length (dispatched s))"
  using dispatched_success[of s] dispatched_failure[of s]
  by (auto simp: notification_def)

theorem confirmation_events_on_skeleton_witness:
  "confirmation (snd (wait (new_Template \<lparr>modal = None, canIgnore = None\<rparr> 0))) \<noteq> None
   \<and> target (last (dispatched (success (snd (wait (new_Template \<lparr>modal = None, canIgnore = None\<rparr> 0))))))
       = Skeleton
   \<and> target (last (dispatched (failure (snd (wait (new_Template \<lparr>modal = None, canIgnore = None\<rparr> 0))))))
       = Skeleton"
  using confirmation_events_on_skeleton
    [of "snd (wait (new_Template \<lparr>modal = None, canIgnore = None\<rparr> 0))"]
  by (simp add: wait_eq)

text \<open>
  C9 as the claim words it fails: the target of the notifications is the skeleton and
  never the dialog body.
\<close>

theorem success_not_dispatched_on_dialog_counterexample:
  "(case run [Wait, Success] (new_Template \<lparr>modal = None, canIgnore = None\<rparr> 0) of
      Inl e \<Rightarrow> False
    | Inr s \<Rightarrow> map (\<lambda>ob. (etype (event ob), target ob)) (dispatched s) = [(''success'', Skeleton)]
        \<and> map (\<lambda>ob. (etype (event ob), target ob)) (dispatched (snd (wait (failure s))))
            = [(''success'', Skeleton), (''failure'', Skeleton)]
        \<and> Dialog \<notin> set (map target (dispatched (failure s))))"
  by (simp add: model_defs)

end
